theory Spec2Isabelle
  imports Main "HOL-Library.AList"
begin

section \<open>Values, records and the array store\<close>

text \<open>
  The class \<^verbatim>\<open>SelectQuery<T extends object>\<close> of \<^verbatim>\<open>src/select-query.ts\<close> wraps a
  JavaScript array of records. The model keeps what the code observes of them:

  \<^item> a field value is a primitive: \<^verbatim>\<open>undefined\<close>, \<^verbatim>\<open>null\<close>, a boolean, a number or a
    string. The type \<open>'n\<close> of numbers is a parameter: it stands for the doubles of
    JavaScript, \<^verbatim>\<open>NaN\<close> and the infinities among them, and what the code does with
    numbers (adding, comparing, converting from and to strings) is taken from a record
    \<open>N\<close> of the host's operations. Strings are ASCII. Fields that hold objects
    (compared by reference) are outside the model;
  \<^item> a record is the ordered list of its own properties, looked up with \<open>map_of\<close>;
    inherited properties are not modelled;
  \<^item> an array element is a record or, for a caller that ignores the TypeScript types,
    a primitive: the constructor exists to reject those;
  \<^item> arrays live in a store and are named by their address, because the constructor
    keeps the caller's array itself (\<^verbatim>\<open>this.#collection = collection\<close>) and \<^verbatim>\<open>get()\<close> hands
    it out again. Building an array (\<^verbatim>\<open>slice\<close>, \<^verbatim>\<open>filter\<close>, \<^verbatim>\<open>map\<close>) allocates
    the next address;
  \<^item> a \<^verbatim>\<open>throw\<close> is the \<open>Inl\<close> of a sum. \<open>Error\<close> is the \<^verbatim>\<open>new Error(message)\<close> the
    class throws itself, \<open>TypeError\<close> the one the JavaScript runtime throws.
\<close>

datatype 'n jsval = JUndefined | JNull | JBool bool | JNum 'n | JStr string

type_synonym 'n object = "(string \<times> 'n jsval) list"

datatype 'n element = Prim "'n jsval" | Obj "'n object"

datatype error = Error string | TypeError string

type_synonym addr = nat

type_synonym 'n store = "'n element list list"

datatype 'n argument = ArrayRef addr | NotArray "'n element"

datatype SelectQuery = SelectQuery (collection: addr)

text \<open>The operations of the host on numbers: \<^verbatim>\<open>+\<close>, the literals \<^verbatim>\<open>0\<close> and \<^verbatim>\<open>1\<close>,
  \<^verbatim>\<open>NaN\<close>, \<^verbatim>\<open>===\<close> and \<^verbatim>\<open><\<close> on two numbers (\<open>None\<close> when one is \<^verbatim>\<open>NaN\<close>), and the
  conversions of a number to a string and of a string to a number.\<close>

record 'n numbers =
  num_add :: "'n \<Rightarrow> 'n \<Rightarrow> 'n"
  num_zero :: 'n
  num_one :: 'n
  num_nan :: 'n
  num_equal :: "'n \<Rightarrow> 'n \<Rightarrow> bool"
  num_less :: "'n \<Rightarrow> 'n \<Rightarrow> bool option"
  num_to_string :: "'n \<Rightarrow> string"
  num_of_string :: "string \<Rightarrow> 'n"

definition operators :: "string list" where
  "operators = [''==='', ''!=='', ''<'', ''<='', ''>'', ''>='', ''like'', ''^like'', ''like$'']"

definition getOperators :: "string list" where
  "getOperators = operators"

subsection \<open>The JavaScript primitives the class calls\<close>

fun typeof :: "'n element \<Rightarrow> string" where
  "typeof (Prim JUndefined) = ''undefined''"
| "typeof (Prim JNull) = ''object''"
| "typeof (Prim (JBool b)) = ''boolean''"
| "typeof (Prim (JNum n)) = ''number''"
| "typeof (Prim (JStr s)) = ''string''"
| "typeof (Obj r) = ''object''"

text \<open>\<^verbatim>\<open>item[key]\<close>: reading a property of \<^verbatim>\<open>null\<close> or \<^verbatim>\<open>undefined\<close> throws, a missing
  property reads as \<^verbatim>\<open>undefined\<close>.\<close>

fun get_prop :: "'n element \<Rightarrow> string \<Rightarrow> error + 'n jsval" where
  "get_prop (Obj r) key = Inr (case map_of r key of None \<Rightarrow> JUndefined | Some v \<Rightarrow> v)"
| "get_prop (Prim JUndefined) key = Inl (TypeError ''Cannot read properties of undefined'')"
| "get_prop (Prim JNull) key = Inl (TypeError ''Cannot read properties of null'')"
| "get_prop (Prim v) key = Inr JUndefined"


text \<open>\<^verbatim>\<open>Array.prototype.slice(start, end)\<close> on integral arguments: a negative index counts
  from the end, both are clamped to the array, \<open>None\<close> is the omitted \<^verbatim>\<open>end\<close>.\<close>

definition relative_index :: "int \<Rightarrow> nat \<Rightarrow> nat" where
  "relative_index i len = (if i < 0 then nat (max (int len + i) 0) else min (nat i) len)"

definition array_slice :: "'a list \<Rightarrow> int \<Rightarrow> int option \<Rightarrow> 'a list" where
  "array_slice xs start end' =
     (let len = length xs;
          k = relative_index start len;
          final = (case end' of None \<Rightarrow> len | Some e \<Rightarrow> relative_index e len)
      in take (final - k) (drop k xs))"

text \<open>\<^verbatim>\<open>filter\<close>, \<^verbatim>\<open>map\<close> and \<^verbatim>\<open>reduce\<close> with a callback that may throw: the first
  throw ends the loop and is the result.\<close>

fun array_filter :: "('a \<Rightarrow> error + bool) \<Rightarrow> 'a list \<Rightarrow> error + 'a list" where
  "array_filter f [] = Inr []"
| "array_filter f (x # xs) =
     (case f x of
        Inl e \<Rightarrow> Inl e
      | Inr b \<Rightarrow> (case array_filter f xs of
                    Inl e \<Rightarrow> Inl e
                  | Inr ys \<Rightarrow> Inr (if b then x # ys else ys)))"

fun array_map :: "('a \<Rightarrow> error + 'b) \<Rightarrow> 'a list \<Rightarrow> error + 'b list" where
  "array_map f [] = Inr []"
| "array_map f (x # xs) =
     (case f x of
        Inl e \<Rightarrow> Inl e
      | Inr y \<Rightarrow> (case array_map f xs of Inl e \<Rightarrow> Inl e | Inr ys \<Rightarrow> Inr (y # ys)))"

fun array_reduce :: "('b \<Rightarrow> 'a \<Rightarrow> error + 'b) \<Rightarrow> 'a list \<Rightarrow> 'b \<Rightarrow> error + 'b" where
  "array_reduce f [] acc = Inr acc"
| "array_reduce f (x # xs) acc =
     (case f acc x of Inl e \<Rightarrow> Inl e | Inr acc' \<Rightarrow> array_reduce f xs acc')"

section \<open>The class\<close>

subsection \<open>Constructor and reads\<close>

definition not_an_object :: "'n element \<Rightarrow> bool" where
  "not_an_object item \<longleftrightarrow> typeof item \<noteq> ''object'' \<or> item = Prim JNull"

definition validation_error :: error where
  "validation_error = Error ''The collection should be an array of objects.''"

definition new_SelectQuery :: "'n store \<Rightarrow> 'n argument \<Rightarrow> error + SelectQuery" where
  "new_SelectQuery h arg =
     (case arg of
        NotArray v \<Rightarrow> Inl validation_error
      | ArrayRef a \<Rightarrow>
          if list_ex not_an_object (h ! a) then Inl validation_error
          else Inr (SelectQuery a))"

definition get :: "SelectQuery \<Rightarrow> addr" where
  "get this = collection this"

definition count :: "'n store \<Rightarrow> SelectQuery \<Rightarrow> nat" where
  "count h this = length (h ! collection this)"

text \<open>\<^verbatim>\<open>new SelectQuery<T>(xs)\<close> for an array \<open>xs\<close> the method has just built: the array
  takes the next address of the store, then the constructor runs on it.\<close>

definition new_from_fresh :: "'n store \<Rightarrow> 'n element list \<Rightarrow> error + (SelectQuery \<times> 'n store)" where
  "new_from_fresh h xs =
     (let a = length h; h' = h @ [xs]
      in case new_SelectQuery h' (ArrayRef a) of
           Inl e \<Rightarrow> Inl e
         | Inr q \<Rightarrow> Inr (q, h'))"

subsection \<open>limit, offset, paginate\<close>

definition limit :: "'n store \<Rightarrow> SelectQuery \<Rightarrow> int \<Rightarrow> error + (SelectQuery \<times> 'n store)" where
  "limit h this n =
     (if n \<le> 0 then Inl (Error ''Limit must be a positive number.'')
      else new_from_fresh h (array_slice (h ! collection this) 0 (Some n)))"

definition offset :: "'n store \<Rightarrow> SelectQuery \<Rightarrow> int \<Rightarrow> error + (SelectQuery \<times> 'n store)" where
  "offset h this n =
     (if n < 0 \<or> n \<ge> int (length (h ! collection this))
      then Inl (Error ''Offset is out of range.'')
      else new_from_fresh h (array_slice (h ! collection this) n None))"

definition paginate :: "'n store \<Rightarrow> SelectQuery \<Rightarrow> int \<Rightarrow> int \<Rightarrow> error + (SelectQuery \<times> 'n store)" where
  "paginate h this num size' =
     (case offset h this ((max num 1 - 1) * size') of
        Inl e \<Rightarrow> Inl e
      | Inr (q, h') \<Rightarrow> limit h' q size')"

subsection \<open>Coercions and comparisons of field values\<close>

text \<open>\<^verbatim>\<open>v.toString()\<close>: a method call on \<^verbatim>\<open>null\<close> or \<^verbatim>\<open>undefined\<close> throws (the \<^verbatim>\<open>!\<close> of
  \<^verbatim>\<open>itemValue!.toString()\<close> is a compile-time assertion and leaves no code).\<close>

fun toString :: "'n numbers \<Rightarrow> 'n jsval \<Rightarrow> error + string" where
  "toString N JUndefined = Inl (TypeError ''Cannot read properties of undefined'')"
| "toString N JNull = Inl (TypeError ''Cannot read properties of null'')"
| "toString N (JBool b) = Inr (if b then ''true'' else ''false'')"
| "toString N (JNum n) = Inr (num_to_string N n)"
| "toString N (JStr s) = Inr s"


definition lower_char :: "char \<Rightarrow> char" where
  "lower_char c =
     (let n = (of_char c :: nat) in if 65 \<le> n \<and> n \<le> 90 then char_of (n + 32) else c)"

definition toLowerCase :: "string \<Rightarrow> string" where
  "toLowerCase s = map lower_char s"

fun startsWith :: "string \<Rightarrow> string \<Rightarrow> bool" where
  "startsWith s [] = True"
| "startsWith [] (c # t) = False"
| "startsWith (d # s) (c # t) = (d = c \<and> startsWith s t)"

definition endsWith :: "string \<Rightarrow> string \<Rightarrow> bool" where
  "endsWith s t = startsWith (rev s) (rev t)"

fun includes' :: "string \<Rightarrow> string \<Rightarrow> bool" where
  "includes' [] t = (t = [])"
| "includes' (d # s) t = (startsWith (d # s) t \<or> includes' s t)"

text \<open>\<^verbatim>\<open>===\<close>: two numbers compare as the host says (\<^verbatim>\<open>NaN\<close> differs from itself), any
  other two primitives are equal when they are the same value.\<close>

fun strict_equal :: "'n numbers \<Rightarrow> 'n jsval \<Rightarrow> 'n jsval \<Rightarrow> bool" where
  "strict_equal N (JNum x) (JNum y) = num_equal N x y"
| "strict_equal N a b = (a = b)"

text \<open>The relational operators. Two strings compare by their characters; anything else
  is converted to a number first, and the host compares the two numbers: \<open>None\<close> is the
  undefined outcome of a comparison with \<^verbatim>\<open>NaN\<close>, false both ways.\<close>

fun string_less :: "string \<Rightarrow> string \<Rightarrow> bool" where
  "string_less [] [] = False"
| "string_less [] (c # t) = True"
| "string_less (d # s) [] = False"
| "string_less (d # s) (c # t) =
     ((of_char d :: nat) < of_char c \<or> (d = c \<and> string_less s t))"

fun toNumber :: "'n numbers \<Rightarrow> 'n jsval \<Rightarrow> 'n" where
  "toNumber N JUndefined = num_nan N"
| "toNumber N JNull = num_zero N"
| "toNumber N (JBool b) = (if b then num_one N else num_zero N)"
| "toNumber N (JNum n) = n"
| "toNumber N (JStr s) = num_of_string N s"

fun js_less :: "'n numbers \<Rightarrow> 'n jsval \<Rightarrow> 'n jsval \<Rightarrow> bool option" where
  "js_less N (JStr s) (JStr t) = Some (string_less s t)"
| "js_less N a b = num_less N (toNumber N a) (toNumber N b)"

subsection \<open>where\<close>

definition equal' :: "'n numbers \<Rightarrow> 'n jsval \<Rightarrow> 'n jsval \<Rightarrow> bool" where
  "equal' N itemValue value' \<longleftrightarrow> strict_equal N itemValue value'"

definition lessThan' :: "'n numbers \<Rightarrow> 'n jsval \<Rightarrow> 'n jsval \<Rightarrow> bool" where
  "lessThan' N itemValue value' \<longleftrightarrow> js_less N itemValue value' = Some True"

definition lessThanOrEqualTo :: "'n numbers \<Rightarrow> 'n jsval \<Rightarrow> 'n jsval \<Rightarrow> bool" where
  "lessThanOrEqualTo N itemValue value' \<longleftrightarrow> js_less N value' itemValue = Some False"

definition greaterThan' :: "'n numbers \<Rightarrow> 'n jsval \<Rightarrow> 'n jsval \<Rightarrow> bool" where
  "greaterThan' N itemValue value' \<longleftrightarrow> js_less N value' itemValue = Some True"

definition greaterThanOrEqualTo :: "'n numbers \<Rightarrow> 'n jsval \<Rightarrow> 'n jsval \<Rightarrow> bool" where
  "greaterThanOrEqualTo N itemValue value' \<longleftrightarrow> js_less N itemValue value' = Some False"

text \<open>\<^verbatim>\<open>#like\<close>: \<^verbatim>\<open>v1\<close> is computed before \<^verbatim>\<open>v2\<close>, so a throw of the first coercion wins.\<close>

definition like ::
  "'n numbers \<Rightarrow> 'n jsval \<Rightarrow> 'n jsval \<Rightarrow> string option \<Rightarrow> error + bool" where
  "like N itemValue value' type' =
     (case toString N itemValue of
        Inl e \<Rightarrow> Inl e
      | Inr s1 \<Rightarrow>
          (case toString N value' of
             Inl e \<Rightarrow> Inl e
           | Inr s2 \<Rightarrow>
               (let v1 = toLowerCase s1; v2 = toLowerCase s2
                in if type' = Some ''^like'' then Inr (startsWith v1 v2)
                   else if type' = Some ''like$'' then Inr (endsWith v1 v2)
                   else Inr (includes' v1 v2))))"

text \<open>The callback of \<^verbatim>\<open>filter\<close> in \<^verbatim>\<open>where\<close>: the \<^verbatim>\<open>switch\<close> runs once for each element,
  and its \<^verbatim>\<open>default\<close> branch throws.\<close>

definition where_item ::
  "'n numbers \<Rightarrow> string \<Rightarrow> string \<Rightarrow> 'n jsval \<Rightarrow> 'n element \<Rightarrow> error + bool" where
  "where_item N key operator value' item =
     (case get_prop item key of
        Inl e \<Rightarrow> Inl e
      | Inr itemValue \<Rightarrow>
          if operator = ''==='' then Inr (equal' N itemValue value')
          else if operator = ''!=='' then Inr (\<not> equal' N itemValue value')
          else if operator = ''<'' then Inr (lessThan' N itemValue value')
          else if operator = ''<='' then Inr (lessThanOrEqualTo N itemValue value')
          else if operator = ''>'' then Inr (greaterThan' N itemValue value')
          else if operator = ''>='' then Inr (greaterThanOrEqualTo N itemValue value')
          else if operator = ''like'' then like N itemValue value' None
          else if operator = ''^like'' then like N itemValue value' (Some ''^like'')
          else if operator = ''like$'' then like N itemValue value' (Some ''like$'')
          else Inl (Error (''Unknown operator: '' @ operator)))"

definition where' ::
  "'n numbers \<Rightarrow> 'n store \<Rightarrow> SelectQuery \<Rightarrow> string \<Rightarrow> string \<Rightarrow> 'n jsval \<Rightarrow>
     error + (SelectQuery \<times> 'n store)" where
  "where' N h this key operator value' =
     (case array_filter (where_item N key operator value') (h ! collection this) of
        Inl e \<Rightarrow> Inl e
      | Inr xs \<Rightarrow> new_from_fresh h xs)"

subsection \<open>sum, select, keyBy\<close>

definition sum_message :: "string \<Rightarrow> string" where
  "sum_message key =
     ''Sum operation failed: the property '' @ [CHR 0x27] @ key @ [CHR 0x27] @
     '' must be a number in every item of the collection.''"

text \<open>The callback of \<^verbatim>\<open>reduce\<close> in \<^verbatim>\<open>sum\<close>; \<^verbatim>\<open>acc + value\<close> is the addition of the
  host. Past the two checks the value is a number; the last case of the model is never
  taken.\<close>

definition sum_item :: "'n numbers \<Rightarrow> string \<Rightarrow> 'n \<Rightarrow> 'n element \<Rightarrow> error + 'n" where
  "sum_item N key acc item =
     (case get_prop item key of
        Inl e \<Rightarrow> Inl e
      | Inr value' \<Rightarrow>
          if value' = JUndefined \<or> value' = JNull then Inr acc
          else if typeof (Prim value') \<noteq> ''number'' then Inl (Error (sum_message key))
          else (case value' of JNum n \<Rightarrow> Inr (num_add N acc n) | _ \<Rightarrow> Inr acc))"

definition sum' :: "'n numbers \<Rightarrow> 'n store \<Rightarrow> SelectQuery \<Rightarrow> string \<Rightarrow> error + 'n" where
  "sum' N h this key = array_reduce (sum_item N key) (h ! collection this) (num_zero N)"

text \<open>\<^verbatim>\<open>({ ...acc, [key]: v })\<close> copies the properties of \<^verbatim>\<open>acc\<close> and sets \<^verbatim>\<open>key\<close>, whatever
  \<^verbatim>\<open>v\<close> is: \<open>AList.update\<close>.\<close>

definition select_item :: "string list \<Rightarrow> 'n element \<Rightarrow> error + 'n element" where
  "select_item keys item =
     (case array_reduce
             (\<lambda>acc key. case get_prop item key of
                           Inl e \<Rightarrow> Inl e
                         | Inr v \<Rightarrow> Inr (AList.update key v acc))
             keys []
      of Inl e \<Rightarrow> Inl e
       | Inr r \<Rightarrow> Inr (Obj r))"

definition select ::
  "'n store \<Rightarrow> SelectQuery \<Rightarrow> string list \<Rightarrow> error + (SelectQuery \<times> 'n store)" where
  "select h this keys =
     (case array_map (select_item keys) (h ! collection this) of
        Inl e \<Rightarrow> Inl e
      | Inr xs \<Rightarrow> new_from_fresh h xs)"



section \<open>Vocabulary of the properties\<close>

text \<open>A Query that the constructor accepts in the store \<open>h\<close>: its array is allocated and
  passes the constructor's check.\<close>

definition constructed :: "'n store \<Rightarrow> SelectQuery \<Rightarrow> bool" where
  "constructed h q \<longleftrightarrow>
     collection q < length h \<and> new_SelectQuery h (ArrayRef (collection q)) = Inr q"

text \<open>What \<^verbatim>\<open>q.get()\<close> holds in the store \<open>h\<close>.\<close>

definition elements :: "'n store \<Rightarrow> SelectQuery \<Rightarrow> 'n element list" where
  "elements h q = h ! get q"

fun fields :: "'n element \<Rightarrow> 'n object" where
  "fields (Obj r) = r"
| "fields (Prim v) = []"

definition has_field :: "'n element \<Rightarrow> string \<Rightarrow> bool" where
  "has_field item key \<longleftrightarrow> map_of (fields item) key \<noteq> None"

definition field_value :: "'n element \<Rightarrow> string \<Rightarrow> 'n jsval" where
  "field_value item key = (case map_of (fields item) key of None \<Rightarrow> JUndefined | Some v \<Rightarrow> v)"

fun is_number :: "'n jsval \<Rightarrow> bool" where
  "is_number (JNum n) = True"
| "is_number v = False"

text \<open>One step of the sum: a number in the field is added to the total with the host's
  addition, anything else leaves the total as it is.\<close>

fun add_value :: "'n numbers \<Rightarrow> 'n \<Rightarrow> 'n jsval \<Rightarrow> 'n" where
  "add_value N acc (JNum n) = num_add N acc n"
| "add_value N acc v = acc"

text \<open>The outcome of a transform is sound for the constructor: it is not the constructor's
  error, and a Query it returns is one the constructor accepts, on an array of objects.\<close>

definition keeps_objects :: "error + (SelectQuery \<times> 'n store) \<Rightarrow> bool" where
  "keeps_objects r \<longleftrightarrow>
     (case r of
        Inl e \<Rightarrow> e \<noteq> validation_error
      | Inr (q', h') \<Rightarrow> constructed h' q' \<and> \<not> list_ex not_an_object (elements h' q'))"

subsection \<open>A host for the examples\<close>

text \<open>The examples run on a small host: the integers, on which the doubles are exact as
  long as they stay below \<open>2^53\<close> in size, and \<^verbatim>\<open>NaN\<close>. A string reads as a number when it is
  an optionally signed decimal integer between blanks, the empty string as 0, anything
  else as \<^verbatim>\<open>NaN\<close>. The theorems below hold for every host; only their examples use this
  one.\<close>

datatype number = Num int | NaN

fun nat_to_string :: "nat \<Rightarrow> string" where
  "nat_to_string n =
     (if n < 10 then [''0123456789'' ! n]
      else nat_to_string (n div 10) @ [''0123456789'' ! (n mod 10)])"

declare nat_to_string.simps [simp del]

definition int_to_string :: "int \<Rightarrow> string" where
  "int_to_string i = (if i < 0 then ''-'' @ nat_to_string (nat (- i)) else nat_to_string (nat i))"

definition is_blank :: "char \<Rightarrow> bool" where
  "is_blank c \<longleftrightarrow> c \<in> set [CHR '' '', CHR 0x09, CHR 0x0A, CHR 0x0B, CHR 0x0C, CHR 0x0D]"

definition is_digit :: "char \<Rightarrow> bool" where
  "is_digit c \<longleftrightarrow> 48 \<le> (of_char c :: nat) \<and> (of_char c :: nat) \<le> 57"

definition digits_value :: "string \<Rightarrow> int" where
  "digits_value s = foldl (\<lambda>acc c. 10 * acc + (int (of_char c) - 48)) 0 s"

definition string_to_number :: "string \<Rightarrow> number" where
  "string_to_number s =
     (let t = rev (dropWhile is_blank (rev (dropWhile is_blank s)));
          (neg, ds) = (case t of
                         c # r \<Rightarrow> if c = CHR ''-'' then (True, r)
                                  else if c = CHR ''+'' then (False, r) else (False, t)
                       | [] \<Rightarrow> (False, t))
      in if t = [] then Num 0
         else if ds \<noteq> [] \<and> list_all is_digit ds
              then Num (if neg then - digits_value ds else digits_value ds)
              else NaN)"

fun number_add :: "number \<Rightarrow> number \<Rightarrow> number" where
  "number_add (Num x) (Num y) = Num (x + y)"
| "number_add a b = NaN"

fun number_equal :: "number \<Rightarrow> number \<Rightarrow> bool" where
  "number_equal (Num x) (Num y) = (x = y)"
| "number_equal a b = False"

fun number_less :: "number \<Rightarrow> number \<Rightarrow> bool option" where
  "number_less (Num x) (Num y) = Some (x < y)"
| "number_less a b = None"

fun number_to_string :: "number \<Rightarrow> string" where
  "number_to_string (Num x) = int_to_string x"
| "number_to_string NaN = ''NaN''"

definition integers :: "number numbers" where
  "integers =
     \<lparr>num_add = number_add, num_zero = Num 0, num_one = Num 1, num_nan = NaN,
      num_equal = number_equal, num_less = number_less,
      num_to_string = number_to_string, num_of_string = string_to_number\<rparr>"

text \<open>The collection of the README's examples, in a store that holds nothing else.\<close>

definition jak :: "number element" where
  "jak = Obj [(''id'', JNum (Num 1)), (''name'', JStr ''Jak''), (''age'', JNum (Num 30))]"

definition bob :: "number element" where
  "bob = Obj [(''id'', JNum (Num 2)), (''name'', JStr ''Bob''), (''age'', JNum (Num 25))]"

definition tom :: "number element" where
  "tom = Obj [(''id'', JNum (Num 3)), (''name'', JStr ''Tom''), (''age'', JNum (Num 20))]"

definition sam :: "number element" where
  "sam = Obj [(''id'', JNum (Num 4)), (''name'', JStr ''Sam''), (''age'', JNum (Num 20))]"

definition readme_store :: "number store" where
  "readme_store = [[jak, bob, tom, sam]]"

section \<open>Auxiliary facts\<close>

lemma not_an_object_iff: "not_an_object item \<longleftrightarrow> (\<forall>r. item \<noteq> Obj r)"
proof (cases item)
  case (Prim v)
  then show ?thesis by (cases v) (simp_all add: not_an_object_def)
next
  case (Obj r)
  then show ?thesis by (simp add: not_an_object_def)
qed

lemma constructed_iff:
  "constructed h q \<longleftrightarrow> collection q < length h \<and> \<not> list_ex not_an_object (h ! collection q)"
  by (cases q) (simp add: constructed_def new_SelectQuery_def)

lemma constructed_elements:
  "constructed h q \<Longrightarrow> \<not> list_ex not_an_object (elements h q)"
  by (simp add: constructed_iff elements_def get_def)

lemma constructed_readme: "constructed readme_store (SelectQuery 0)"
  by (simp add: constructed_iff readme_store_def not_an_object_iff jak_def bob_def tom_def sam_def)

lemma list_ex_subset: "set ys \<subseteq> set xs \<Longrightarrow> \<not> list_ex P xs \<Longrightarrow> \<not> list_ex P ys"
  by (auto simp: list_ex_iff)

lemma new_from_fresh_objects:
  "\<not> list_ex not_an_object xs \<Longrightarrow> new_from_fresh h xs = Inr (SelectQuery (length h), h @ [xs])"
  by (simp add: new_from_fresh_def new_SelectQuery_def Let_def)

lemma new_from_fresh_Inr:
  "new_from_fresh h xs = Inr (q', h') \<Longrightarrow>
     q' = SelectQuery (length h) \<and> h' = h @ [xs] \<and> \<not> list_ex not_an_object xs"
  by (auto simp: new_from_fresh_def new_SelectQuery_def Let_def split: if_splits)

lemma new_from_fresh_Inl:
  "new_from_fresh h xs = Inl e \<Longrightarrow> e = validation_error \<and> list_ex not_an_object xs"
  by (auto simp: new_from_fresh_def new_SelectQuery_def Let_def split: if_splits)

lemma elements_fresh: "elements (h @ [xs]) (SelectQuery (length h)) = xs"
  by (simp add: elements_def get_def)

lemma constructed_fresh:
  "\<not> list_ex not_an_object xs \<Longrightarrow> constructed (h @ [xs]) (SelectQuery (length h))"
  by (simp add: constructed_iff)

lemma array_slice_limit: "0 < n \<Longrightarrow> array_slice xs 0 (Some n) = take (nat n) xs"
  by (simp add: array_slice_def relative_index_def Let_def min_def)

lemma array_slice_offset: "0 \<le> n \<Longrightarrow> array_slice xs n None = drop (nat n) xs"
  by (simp add: array_slice_def relative_index_def Let_def min_def)

lemma limit_closed:
  assumes "constructed h q"
  shows "limit h q n =
     (if n \<le> 0 then Inl (Error ''Limit must be a positive number.'')
      else Inr (SelectQuery (length h), h @ [take (nat n) (elements h q)]))"
proof (cases "n \<le> 0")
  case True
  then show ?thesis by (simp add: limit_def)
next
  case False
  have "\<not> list_ex not_an_object (take (nat n) (elements h q))"
    using constructed_elements [OF assms] by (rule list_ex_subset [OF set_take_subset])
  then show ?thesis
    using False
    by (simp add: limit_def array_slice_limit new_from_fresh_objects elements_def get_def)
qed

lemma offset_closed:
  assumes "constructed h q"
  shows "offset h q n =
     (if n < 0 \<or> int (count h q) \<le> n then Inl (Error ''Offset is out of range.'')
      else Inr (SelectQuery (length h), h @ [drop (nat n) (elements h q)]))"
proof (cases "n < 0 \<or> int (count h q) \<le> n")
  case True
  then show ?thesis by (auto simp add: offset_def count_def)
next
  case False
  have "\<not> list_ex not_an_object (drop (nat n) (elements h q))"
    using constructed_elements [OF assms] by (rule list_ex_subset [OF set_drop_subset])
  then show ?thesis
    using False
    by (simp add: offset_def count_def array_slice_offset new_from_fresh_objects
        elements_def get_def)
qed

section \<open>limit and offset\<close>

text \<open>
  C9. On a Query the constructor accepts, \<open>limit n\<close> throws \<^verbatim>\<open>Limit must be a positive number.\<close>
  (the spec's RangeError) exactly when \<open>n \<le> 0\<close>. For \<open>n > 0\<close> it returns a new Query, on
  an array of its own, that holds the first \<open>min n length\<close> elements in order; when \<open>n\<close>
  is at least the length this is the whole sequence, without error. The count \<open>n\<close> is
  an integer.
\<close>

theorem limit_spec:
  assumes "constructed h q"
  shows "(n \<le> 0 \<longrightarrow> limit h q n = Inl (Error ''Limit must be a positive number.'')) \<and>
         (0 < n \<longrightarrow>
            (\<exists>q' h'. limit h q n = Inr (q', h') \<and> get q' \<noteq> get q \<and> constructed h' q' \<and>
               elements h' q' = take (min (nat n) (count h q)) (elements h q) \<and>
               (count h q \<le> nat n \<longrightarrow> elements h' q' = elements h q)))"
proof (intro conjI impI)
  assume "n \<le> 0"
  then show "limit h q n = Inl (Error ''Limit must be a positive number.'')"
    by (simp add: limit_closed [OF assms])
next
  assume pos: "0 < n"
  let ?xs = "take (nat n) (elements h q)"
  have run: "limit h q n = Inr (SelectQuery (length h), h @ [?xs])"
    using pos by (simp add: limit_closed [OF assms])
  have objs: "\<not> list_ex not_an_object ?xs"
    using constructed_elements [OF assms] by (rule list_ex_subset [OF set_take_subset])
  have old: "collection q < length h"
    using assms by (simp add: constructed_def)
  have "get (SelectQuery (length h)) \<noteq> get q"
    using old by (simp add: get_def)
  moreover have "constructed (h @ [?xs]) (SelectQuery (length h))"
    using objs by (rule constructed_fresh)
  moreover have "elements (h @ [?xs]) (SelectQuery (length h)) =
      take (min (nat n) (count h q)) (elements h q)"
    by (simp add: elements_fresh count_def elements_def get_def min_def)
  moreover have "count h q \<le> nat n \<longrightarrow>
      elements (h @ [?xs]) (SelectQuery (length h)) = elements h q"
    by (simp add: elements_fresh count_def elements_def get_def)
  ultimately show "\<exists>q' h'. limit h q n = Inr (q', h') \<and> get q' \<noteq> get q \<and>
      constructed h' q' \<and>
      elements h' q' = take (min (nat n) (count h q)) (elements h q) \<and>
      (count h q \<le> nat n \<longrightarrow> elements h' q' = elements h q)"
    using run by blast
qed

theorem limit_spec_witness:
  "constructed readme_store (SelectQuery 0) \<and>
   limit readme_store (SelectQuery 0) 0 = Inl (Error ''Limit must be a positive number.'') \<and>
   (\<exists>q' h'. limit readme_store (SelectQuery 0) 2 = Inr (q', h') \<and> elements h' q' = [jak, bob]) \<and>
   (\<exists>q' h'. limit readme_store (SelectQuery 0) 9 = Inr (q', h') \<and>
      elements h' q' = [jak, bob, tom, sam])"
  using constructed_readme
    limit_spec [OF constructed_readme, of 0]
    limit_spec [OF constructed_readme, of 2]
    limit_spec [OF constructed_readme, of 9]
  by (auto simp add: count_def elements_def get_def readme_store_def)

text \<open>
  C4. On a Query the constructor accepts, \<open>offset n\<close> throws \<^verbatim>\<open>Offset is out of range.\<close>
  (the spec's RangeError) exactly when \<open>n < 0\<close> or \<open>n \<ge> length\<close>: also at \<open>n = length\<close>,
  and for every \<open>n\<close> when the collection is empty. For \<open>0 \<le> n < length\<close> it returns a
  new Query, on an array of its own, that holds the sequence without its first \<open>n\<close>
  elements, in order. The count \<open>n\<close> is an integer.
\<close>

theorem offset_spec:
  assumes "constructed h q"
  shows "(n < 0 \<or> int (count h q) \<le> n \<longrightarrow>
            offset h q n = Inl (Error ''Offset is out of range.'')) \<and>
         (0 \<le> n \<and> n < int (count h q) \<longrightarrow>
            (\<exists>q' h'. offset h q n = Inr (q', h') \<and> get q' \<noteq> get q \<and> constructed h' q' \<and>
               elements h' q' = drop (nat n) (elements h q))) \<and>
         (count h q = 0 \<longrightarrow> offset h q n = Inl (Error ''Offset is out of range.''))"
proof (intro conjI impI)
  assume "n < 0 \<or> int (count h q) \<le> n"
  then show "offset h q n = Inl (Error ''Offset is out of range.'')"
    by (simp add: offset_closed [OF assms])
next
  assume "count h q = 0"
  then have "n < 0 \<or> int (count h q) \<le> n"
    by linarith
  then show "offset h q n = Inl (Error ''Offset is out of range.'')"
    by (simp add: offset_closed [OF assms])
next
  assume inside: "0 \<le> n \<and> n < int (count h q)"
  let ?xs = "drop (nat n) (elements h q)"
  have run: "offset h q n = Inr (SelectQuery (length h), h @ [?xs])"
    using inside by (simp add: offset_closed [OF assms])
  have objs: "\<not> list_ex not_an_object ?xs"
    using constructed_elements [OF assms] by (rule list_ex_subset [OF set_drop_subset])
  have "collection q < length h"
    using assms by (simp add: constructed_def)
  then have "get (SelectQuery (length h)) \<noteq> get q"
    by (simp add: get_def)
  moreover have "constructed (h @ [?xs]) (SelectQuery (length h))"
    using objs by (rule constructed_fresh)
  moreover have "elements (h @ [?xs]) (SelectQuery (length h)) = ?xs"
    by (rule elements_fresh)
  ultimately show "\<exists>q' h'. offset h q n = Inr (q', h') \<and> get q' \<noteq> get q \<and>
      constructed h' q' \<and> elements h' q' = drop (nat n) (elements h q)"
    using run by blast
qed

theorem offset_spec_witness:
  "constructed readme_store (SelectQuery 0) \<and>
   offset readme_store (SelectQuery 0) (- 1) = Inl (Error ''Offset is out of range.'') \<and>
   offset readme_store (SelectQuery 0) 4 = Inl (Error ''Offset is out of range.'') \<and>
   (\<exists>q' h'. offset readme_store (SelectQuery 0) 2 = Inr (q', h') \<and> elements h' q' = [tom, sam])"
  using constructed_readme
    offset_spec [OF constructed_readme, of "- 1"]
    offset_spec [OF constructed_readme, of 4]
    offset_spec [OF constructed_readme, of 2]
  by (auto simp add: count_def elements_def get_def readme_store_def)

lemma paginate_closed:
  assumes "constructed h q"
  shows "paginate h q p s =
     (if (max p 1 - 1) * s < 0 \<or> int (count h q) \<le> (max p 1 - 1) * s
      then Inl (Error ''Offset is out of range.'')
      else if s \<le> 0 then Inl (Error ''Limit must be a positive number.'')
      else Inr (SelectQuery (Suc (length h)),
                h @ [drop (nat ((max p 1 - 1) * s)) (elements h q)]
                  @ [take (nat s) (drop (nat ((max p 1 - 1) * s)) (elements h q))]))"
proof (cases "(max p 1 - 1) * s < 0 \<or> int (count h q) \<le> (max p 1 - 1) * s")
  case True
  then show ?thesis
    by (simp add: paginate_def offset_closed [OF assms])
next
  case False
  let ?xs = "drop (nat ((max p 1 - 1) * s)) (elements h q)"
  have off: "offset h q ((max p 1 - 1) * s) = Inr (SelectQuery (length h), h @ [?xs])"
    using False by (simp add: offset_closed [OF assms])
  have "\<not> list_ex not_an_object ?xs"
    using constructed_elements [OF assms] by (rule list_ex_subset [OF set_drop_subset])
  then have c: "constructed (h @ [?xs]) (SelectQuery (length h))"
    by (rule constructed_fresh)
  show ?thesis
    using False by (simp add: paginate_def off limit_closed [OF c] elements_fresh)
qed

section \<open>paginate\<close>

text \<open>
  C8. \<open>paginate p s\<close> is \<open>offset ((max p 1 - 1) * s)\<close> followed by \<open>limit s\<close> on its
  result, so every page number \<open>p \<le> 1\<close> behaves as page 1. On a Query the constructor
  accepts it throws exactly the errors of the two: that of \<open>offset\<close> when the start
  \<open>(max p 1 - 1) * s\<close> is negative or at least the length, else that of \<open>limit\<close> when
  \<open>s \<le> 0\<close>; in every other case it returns a new Query holding \<open>s\<close> elements at most,
  taken from the start on. Page number and size are integers.
\<close>

theorem paginate_spec:
  assumes "constructed h q"
  shows "paginate h q p s =
           (case offset h q ((max p 1 - 1) * s) of
              Inl e \<Rightarrow> Inl e
            | Inr (q1, h1) \<Rightarrow> limit h1 q1 s) \<and>
         (p \<le> 1 \<longrightarrow> paginate h q p s = paginate h q 1 s) \<and>
         ((max p 1 - 1) * s < 0 \<or> int (count h q) \<le> (max p 1 - 1) * s \<longrightarrow>
            paginate h q p s = Inl (Error ''Offset is out of range.'')) \<and>
         (0 \<le> (max p 1 - 1) * s \<and> (max p 1 - 1) * s < int (count h q) \<and> s \<le> 0 \<longrightarrow>
            paginate h q p s = Inl (Error ''Limit must be a positive number.'')) \<and>
         (0 \<le> (max p 1 - 1) * s \<and> (max p 1 - 1) * s < int (count h q) \<and> 0 < s \<longrightarrow>
            (\<exists>q' h'. paginate h q p s = Inr (q', h') \<and> get q' \<noteq> get q \<and> constructed h' q' \<and>
               elements h' q' =
                 take (nat s) (drop (nat ((max p 1 - 1) * s)) (elements h q))))"
proof (intro conjI impI)
  show "paginate h q p s =
           (case offset h q ((max p 1 - 1) * s) of
              Inl e \<Rightarrow> Inl e
            | Inr (q1, h1) \<Rightarrow> limit h1 q1 s)"
    by (simp add: paginate_def)
next
  assume "p \<le> 1"
  then have "max p 1 = max 1 (1::int)" by simp
  then show "paginate h q p s = paginate h q 1 s"
    by (simp add: paginate_def)
next
  assume "(max p 1 - 1) * s < 0 \<or> int (count h q) \<le> (max p 1 - 1) * s"
  then show "paginate h q p s = Inl (Error ''Offset is out of range.'')"
    by (simp add: paginate_closed [OF assms])
next
  assume "0 \<le> (max p 1 - 1) * s \<and> (max p 1 - 1) * s < int (count h q) \<and> s \<le> 0"
  then show "paginate h q p s = Inl (Error ''Limit must be a positive number.'')"
    by (simp add: paginate_closed [OF assms])
next
  assume ok: "0 \<le> (max p 1 - 1) * s \<and> (max p 1 - 1) * s < int (count h q) \<and> 0 < s"
  let ?xs = "drop (nat ((max p 1 - 1) * s)) (elements h q)"
  let ?ys = "take (nat s) ?xs"
  have run: "paginate h q p s = Inr (SelectQuery (Suc (length h)), h @ [?xs] @ [?ys])"
    using ok by (simp add: paginate_closed [OF assms])
  have "set ?ys \<subseteq> set (elements h q)"
    using set_take_subset set_drop_subset by fast
  then have "\<not> list_ex not_an_object ?ys"
    using constructed_elements [OF assms] by (rule list_ex_subset)
  then have "constructed ((h @ [?xs]) @ [?ys]) (SelectQuery (length (h @ [?xs])))"
    by (rule constructed_fresh)
  then have c: "constructed (h @ [?xs] @ [?ys]) (SelectQuery (Suc (length h)))"
    by simp
  have "collection q < length h"
    using assms by (simp add: constructed_def)
  then have d: "get (SelectQuery (Suc (length h))) \<noteq> get q"
    by (simp add: get_def)
  have "elements ((h @ [?xs]) @ [?ys]) (SelectQuery (length (h @ [?xs]))) = ?ys"
    by (rule elements_fresh)
  then have e: "elements (h @ [?xs] @ [?ys]) (SelectQuery (Suc (length h))) = ?ys"
    by simp
  show "\<exists>q' h'. paginate h q p s = Inr (q', h') \<and> get q' \<noteq> get q \<and> constructed h' q' \<and>
      elements h' q' = take (nat s) (drop (nat ((max p 1 - 1) * s)) (elements h q))"
    using run c d e by blast
qed

theorem paginate_spec_witness:
  "constructed readme_store (SelectQuery 0) \<and>
   (\<exists>q' h'. paginate readme_store (SelectQuery 0) 2 2 = Inr (q', h') \<and>
      elements h' q' = [tom, sam]) \<and>
   paginate readme_store (SelectQuery 0) (- 3) 3 = paginate readme_store (SelectQuery 0) 1 3 \<and>
   paginate readme_store (SelectQuery 0) 3 2 = Inl (Error ''Offset is out of range.'') \<and>
   paginate readme_store (SelectQuery 0) 1 0 = Inl (Error ''Limit must be a positive number.'')"
  using constructed_readme
    paginate_spec [OF constructed_readme, of 2 2, THEN conjunct2]
    paginate_spec [OF constructed_readme, of "- 3" 3, THEN conjunct2]
    paginate_spec [OF constructed_readme, of 3 2, THEN conjunct2]
    paginate_spec [OF constructed_readme, of 1 0, THEN conjunct2]
  by (auto simp add: count_def elements_def get_def readme_store_def)

section \<open>Auxiliary facts on the callbacks\<close>

lemma array_filter_total:
  "(\<And>x. x \<in> set xs \<Longrightarrow> f x = Inr (g x)) \<Longrightarrow> array_filter f xs = Inr (filter g xs)"
  by (induction xs) simp_all

lemma array_filter_subset: "array_filter f xs = Inr ys \<Longrightarrow> set ys \<subseteq> set xs"
proof (induction xs arbitrary: ys)
  case Nil
  then show ?case by simp
next
  case (Cons x xs)
  then show ?case
    by (fastforce split: sum.splits if_splits)
qed

lemma array_filter_error: "array_filter f xs = Inl e \<Longrightarrow> \<exists>x\<in>set xs. f x = Inl e"
  by (induction xs) (auto split: sum.splits)

lemma array_filter_throws:
  "x \<in> set xs \<Longrightarrow> f x = Inl e \<Longrightarrow> \<exists>e'. array_filter f xs = Inl e'"
  by (induction xs) (auto split: sum.splits)

lemma get_prop_Obj: "get_prop (Obj r) key = Inr (field_value (Obj r) key)"
  by (simp add: field_value_def)

lemma objects_cases:
  assumes "\<not> list_ex not_an_object xs" and "x \<in> set xs"
  obtains r where "x = Obj r"
  using assms by (auto simp: list_ex_iff not_an_object_iff)

lemma where_item_unknown:
  assumes "operator \<notin> set operators"
  shows "where_item N key operator v (Obj r) = Inl (Error (''Unknown operator: '' @ operator))"
  using assms by (simp add: where_item_def operators_def)

lemma like_error: "like N a b t = Inl e \<Longrightarrow> \<exists>msg. e = TypeError msg"
  by (cases a; cases b) (auto simp: like_def Let_def split: if_splits)

lemma like_missing:
  "a = JUndefined \<or> a = JNull \<Longrightarrow> \<exists>msg. like N a b t = Inl (TypeError msg)"
  by (auto simp: like_def)

lemma where_item_not_validation:
  "where_item N key operator v (Obj r) = Inl e \<Longrightarrow> e \<noteq> validation_error"
  by (auto simp: where_item_def validation_error_def split: if_splits dest: like_error)

lemma where_item_like_error:
  assumes "operator \<in> {''like'', ''^like'', ''like$''}"
    and "where_item N key operator v (Obj r) = Inl e"
  shows "\<exists>msg. e = TypeError msg"
  using assms by (auto simp: where_item_def dest: like_error)

lemma where_item_like_missing:
  assumes "operator \<in> {''like'', ''^like'', ''like$''}"
    and "field_value (Obj r) key = JUndefined \<or> field_value (Obj r) key = JNull"
  shows "\<exists>msg. where_item N key operator v (Obj r) = Inl (TypeError msg)"
  using assms like_missing [where a = "field_value (Obj r) key" and b = v and N = N]
  by (auto simp add: where_item_def field_value_def)


lemma where_Inr:
  assumes "where' N h q key operator v = Inr (q', h')"
  shows "\<exists>ys. q' = SelectQuery (length h) \<and> h' = h @ [ys] \<and> set ys \<subseteq> set (elements h q) \<and>
     \<not> list_ex not_an_object ys"
proof -
  obtain ys where f: "array_filter (where_item N key operator v) (h ! collection q) = Inr ys"
    and n: "new_from_fresh h ys = Inr (q', h')"
    using assms by (auto simp: where'_def split: sum.splits)
  have "set ys \<subseteq> set (elements h q)"
    using array_filter_subset [OF f] by (simp add: elements_def get_def)
  then show ?thesis
    using new_from_fresh_Inr [OF n] by blast
qed

lemma where_Inl:
  assumes "constructed h q" and "where' N h q key operator v = Inl e"
  shows "e \<noteq> validation_error"
proof (cases "array_filter (where_item N key operator v) (elements h q)")
  case (Inl e')
  then have "e' = e"
    using assms(2) by (simp add: where'_def elements_def get_def)
  then obtain x where x: "x \<in> set (elements h q)" "where_item N key operator v x = Inl e"
    using array_filter_error [OF Inl] by blast
  obtain r where "x = Obj r"
    using constructed_elements [OF assms(1)] x(1) by (rule objects_cases)
  then show ?thesis
    using x(2) where_item_not_validation by blast
next
  case (Inr ys)
  have "\<not> list_ex not_an_object ys"
    using constructed_elements [OF assms(1)]
    by (rule list_ex_subset [OF array_filter_subset [OF Inr]])
  then have "new_from_fresh h ys = Inr (SelectQuery (length h), h @ [ys])"
    by (rule new_from_fresh_objects)
  then show ?thesis
    using assms(2) Inr by (simp add: where'_def elements_def get_def)
qed

section \<open>where\<close>

text \<open>
  C3 does not hold of the code. \<open>where\<close> rejects a tag outside the nine operators in
  the \<^verbatim>\<open>default\<close> branch of its \<^verbatim>\<open>switch\<close>, which throws \<^verbatim>\<open>Unknown operator: \<close> followed
  by the tag (the spec's UnknownOperatorError). The \<^verbatim>\<open>switch\<close> stands inside the callback
  of \<^verbatim>\<open>filter\<close>, which runs once for each element: on a Query the constructor accepts,
  \<open>where\<close> with an unknown tag throws when the collection has an element, and on an
  empty collection the check is skipped and \<open>where\<close> returns a new Query over the empty
  sequence.
\<close>

theorem where_unknown_operator:
  assumes "constructed h q" and "operator \<notin> set operators"
  shows "(elements h q \<noteq> [] \<longrightarrow>
            where' N h q key operator v = Inl (Error (''Unknown operator: '' @ operator))) \<and>
         (elements h q = [] \<longrightarrow>
            where' N h q key operator v = Inr (SelectQuery (length h), h @ [[]]))"
proof (intro conjI impI)
  assume "elements h q \<noteq> []"
  then obtain x xs where split: "elements h q = x # xs"
    by (cases "elements h q") simp_all
  then have "x \<in> set (elements h q)"
    by simp
  with constructed_elements [OF assms(1)] obtain r where "x = Obj r"
    by (rule objects_cases)
  then have "where_item N key operator v x = Inl (Error (''Unknown operator: '' @ operator))"
    using assms(2) by (simp add: where_item_unknown)
  then have "array_filter (where_item N key operator v) (elements h q) =
      Inl (Error (''Unknown operator: '' @ operator))"
    by (simp add: split)
  then show "where' N h q key operator v = Inl (Error (''Unknown operator: '' @ operator))"
    by (simp add: where'_def elements_def get_def)
next
  assume "elements h q = []"
  then have "array_filter (where_item N key operator v) (h ! collection q) = Inr []"
    by (simp add: elements_def get_def)
  then show "where' N h q key operator v = Inr (SelectQuery (length h), h @ [[]])"
    by (simp add: where'_def new_from_fresh_objects)
qed

theorem where_unknown_operator_witness:
  "constructed readme_store (SelectQuery 0) \<and> ''===='' \<notin> set operators \<and>
   where' integers readme_store (SelectQuery 0) ''name'' ''===='' (JStr ''do'') =
     Inl (Error ''Unknown operator: ===='') \<and>
   constructed ([[]] :: number store) (SelectQuery 0) \<and>
   where' integers [[]] (SelectQuery 0) ''name'' ''===='' (JStr ''do'') =
     Inr (SelectQuery 1, [[], []])"
proof -
  have op: "''===='' \<notin> set operators"
    by (simp add: operators_def)
  have empty: "constructed ([[]] :: number store) (SelectQuery 0)"
    by (simp add: constructed_iff)
  show ?thesis
    using constructed_readme op empty
      where_unknown_operator [OF constructed_readme op, where N = integers and key = "''name''"
        and v = "JStr ''do''"]
      where_unknown_operator [OF empty op, where N = integers and key = "''name''"
        and v = "JStr ''do''"]
    by (simp add: elements_def get_def readme_store_def)
qed

text \<open>
  C2 does not hold of the code. \<^verbatim>\<open>#like\<close> calls \<^verbatim>\<open>toString\<close> on the field value as it
  is: on a Query the constructor accepts, \<open>where\<close> with any of the three string-matching
  operators throws a \<open>TypeError\<close> as soon as one element has the field absent,
  \<^verbatim>\<open>undefined\<close> or \<^verbatim>\<open>null\<close>.
\<close>

theorem where_like_missing_field_throws:
  assumes "constructed h q"
    and "operator \<in> {''like'', ''^like'', ''like$''}"
    and "item \<in> set (elements h q)"
    and "field_value item key = JUndefined \<or> field_value item key = JNull"
  shows "\<exists>msg. where' N h q key operator v = Inl (TypeError msg)"
proof -
  obtain r where r: "item = Obj r"
    using constructed_elements [OF assms(1)] assms(3) by (rule objects_cases)
  then obtain msg where "where_item N key operator v item = Inl (TypeError msg)"
    using where_item_like_missing [OF assms(2), where r = r and key = key and v = v and N = N] assms(4) by blast
  then obtain e where e: "array_filter (where_item N key operator v) (elements h q) = Inl e"
    using array_filter_throws [OF assms(3)] by blast
  then obtain x where x: "x \<in> set (elements h q)" "where_item N key operator v x = Inl e"
    using array_filter_error by blast
  obtain r' where "x = Obj r'"
    using constructed_elements [OF assms(1)] x(1) by (rule objects_cases)
  then obtain msg' where "e = TypeError msg'"
    using where_item_like_error [OF assms(2)] x(2) by blast
  then show ?thesis
    using e by (simp add: where'_def elements_def get_def)
qed

theorem where_like_missing_field_throws_witness:
  "constructed [[Obj [(''name'', JStr ''Bob'')], Obj [(''id'', JNum (Num 2))]]] (SelectQuery 0) \<and>
   where' integers [[Obj [(''name'', JStr ''Bob'')], Obj [(''id'', JNum (Num 2))]]] (SelectQuery 0)
     ''name'' ''like'' (JStr ''b'') = Inl (TypeError ''Cannot read properties of undefined'')"
proof -
  let ?h = "[[Obj [(''name'', JStr ''Bob'')], Obj [(''id'', JNum (Num 2))]]]"
  have c: "constructed ?h (SelectQuery 0)"
    by (simp add: constructed_iff not_an_object_iff)
  have o: "''like'' \<in> {''like'', ''^like'', ''like$''}"
    by simp
  have i: "Obj [(''id'', JNum (Num 2))] \<in> set (elements ?h (SelectQuery 0))"
    by (simp add: elements_def get_def)
  have f: "field_value (Obj [(''id'', JNum (Num 2))]) ''name'' = JUndefined \<or>
      field_value (Obj [(''id'', JNum (Num 2))]) ''name'' = JNull"
    by (simp add: field_value_def)
  have "where' integers ?h (SelectQuery 0) ''name'' ''like'' (JStr ''b'') =
      Inl (TypeError ''Cannot read properties of undefined'')"
    by (simp add: where'_def where_item_def like_def toLowerCase_def lower_char_def)
  then show ?thesis
    using c where_like_missing_field_throws [OF c o i f, where v = "JStr ''b''" and N = integers] by simp
qed

section \<open>select\<close>


lemma array_map_total:
  "(\<And>x. x \<in> set xs \<Longrightarrow> f x = Inr (g x)) \<Longrightarrow> array_map f xs = Inr (map g xs)"
  by (induction xs) simp_all

lemma array_reduce_total:
  "(\<And>acc x. x \<in> set xs \<Longrightarrow> f acc x = Inr (g acc x)) \<Longrightarrow>
     array_reduce f xs acc = Inr (foldl g acc xs)"
  by (induction xs arbitrary: acc) simp_all

lemma foldl_update_map_of:
  "map_of (foldl (\<lambda>acc k. AList.update k (g k) acc) acc ks) k =
     (if k \<in> set ks then Some (g k) else map_of acc k)"
  by (induction ks arbitrary: acc) (simp_all add: update_conv')

lemma foldl_update_keys:
  "fst ` set (foldl (\<lambda>acc k. AList.update k (g k) acc) acc ks) = set ks \<union> fst ` set acc"
  by (induction ks arbitrary: acc) (auto simp add: dom_update)

lemma foldl_update_distinct:
  "distinct (map fst acc) \<Longrightarrow>
     distinct (map fst (foldl (\<lambda>acc k. AList.update k (g k) acc) acc ks))"
  by (induction ks arbitrary: acc) (simp_all add: distinct_update)

lemma select_item_Obj:
  "select_item keys (Obj r) =
     Inr (Obj (foldl (\<lambda>acc k. AList.update k (field_value (Obj r) k) acc) [] keys))"
proof -
  have "array_reduce
          (\<lambda>acc key. case get_prop (Obj r) key of
                        Inl e \<Rightarrow> Inl e
                      | Inr v \<Rightarrow> Inr (AList.update key v acc)) keys [] =
        Inr (foldl (\<lambda>acc k. AList.update k (field_value (Obj r) k) acc) [] keys)"
    by (rule array_reduce_total) (simp add: field_value_def)
  then show ?thesis
    by (simp add: select_item_def)
qed

lemma select_closed:
  assumes "constructed h q"
  shows "select h q keys =
     Inr (SelectQuery (length h),
          h @ [map (\<lambda>item. Obj (foldl (\<lambda>acc k. AList.update k (field_value item k) acc) [] keys))
                 (elements h q)])"
proof -
  let ?p = "\<lambda>item. Obj (foldl (\<lambda>acc k. AList.update k (field_value item k) acc) [] keys)"
  have "array_map (select_item keys) (elements h q) = Inr (map ?p (elements h q))"
  proof (rule array_map_total)
    fix x assume "x \<in> set (elements h q)"
    with constructed_elements [OF assms] obtain r where "x = Obj r"
      by (rule objects_cases)
    then show "select_item keys x = Inr (?p x)"
      by (simp add: select_item_Obj)
  qed
  moreover have "\<not> list_ex not_an_object (map ?p (elements h q))"
    by (simp add: list_ex_iff not_an_object_iff)
  ultimately show ?thesis
    by (simp add: select_def new_from_fresh_objects elements_def get_def)
qed

text \<open>
  C1, as the code has it. On a Query the constructor accepts, \<open>select k1 ... kn\<close> never
  fails and returns a new Query whose sequence has the length and the order of the
  input. Its i-th element has exactly the fields \<open>k1, ..., kn\<close>, each once, and each
  holds what \<^verbatim>\<open>item[key]\<close> reads on the i-th source element: the value of the field, or
  \<^verbatim>\<open>undefined\<close> when the source element lacks it. So a key absent from the source element
  is present on the projected element, with the value \<^verbatim>\<open>undefined\<close>.
\<close>

theorem select_spec:
  assumes "constructed h q"
  shows "\<exists>q' h'. select h q keys = Inr (q', h') \<and> get q' \<noteq> get q \<and> constructed h' q' \<and>
           length (elements h' q') = length (elements h q) \<and>
           (\<forall>i<length (elements h q).
              \<exists>r. elements h' q' ! i = Obj r \<and> distinct (map fst r) \<and>
                  fst ` set r = set keys \<and>
                  (\<forall>k\<in>set keys.
                     map_of r k = Some (field_value (elements h q ! i) k) \<and>
                     (\<not> has_field (elements h q ! i) k \<longrightarrow> map_of r k = Some JUndefined)))"
proof -
  let ?p = "\<lambda>item. foldl (\<lambda>acc k. AList.update k (field_value item k) acc) [] keys"
  let ?ys = "map (\<lambda>item. Obj (?p item)) (elements h q)"
  have run: "select h q keys = Inr (SelectQuery (length h), h @ [?ys])"
    by (rule select_closed [OF assms])
  have "collection q < length h"
    using assms by (simp add: constructed_def)
  then have new: "get (SelectQuery (length h)) \<noteq> get q"
    by (simp add: get_def)
  have "\<not> list_ex not_an_object ?ys"
    by (simp add: list_ex_iff not_an_object_iff)
  then have c: "constructed (h @ [?ys]) (SelectQuery (length h))"
    by (rule constructed_fresh)
  have e: "elements (h @ [?ys]) (SelectQuery (length h)) = ?ys"
    by (rule elements_fresh)
  have each: "\<exists>r. ?ys ! i = Obj r \<and> distinct (map fst r) \<and> fst ` set r = set keys \<and>
      (\<forall>k\<in>set keys. map_of r k = Some (field_value (elements h q ! i) k) \<and>
         (\<not> has_field (elements h q ! i) k \<longrightarrow> map_of r k = Some JUndefined))"
    if "i < length (elements h q)" for i
  proof -
    let ?r = "?p (elements h q ! i)"
    have "?ys ! i = Obj ?r"
      using that by simp
    moreover have "distinct (map fst ?r)"
      by (rule foldl_update_distinct) simp
    moreover have "fst ` set ?r = set keys"
      by (simp add: foldl_update_keys)
    moreover have "\<forall>k\<in>set keys. map_of ?r k = Some (field_value (elements h q ! i) k) \<and>
         (\<not> has_field (elements h q ! i) k \<longrightarrow> map_of ?r k = Some JUndefined)"
      by (simp add: foldl_update_map_of has_field_def field_value_def)
    ultimately show ?thesis
      by blast
  qed
  have len: "length (elements (h @ [?ys]) (SelectQuery (length h))) = length (elements h q)"
    by (simp add: e)
  have "\<forall>i<length (elements h q).
      \<exists>r. ?ys ! i = Obj r \<and> distinct (map fst r) \<and> fst ` set r = set keys \<and>
        (\<forall>k\<in>set keys. map_of r k = Some (field_value (elements h q ! i) k) \<and>
           (\<not> has_field (elements h q ! i) k \<longrightarrow> map_of r k = Some JUndefined))"
    using each by blast
  then have all: "\<forall>i<length (elements h q).
      \<exists>r. elements (h @ [?ys]) (SelectQuery (length h)) ! i = Obj r \<and>
        distinct (map fst r) \<and> fst ` set r = set keys \<and>
        (\<forall>k\<in>set keys. map_of r k = Some (field_value (elements h q ! i) k) \<and>
           (\<not> has_field (elements h q ! i) k \<longrightarrow> map_of r k = Some JUndefined))"
    by (simp only: e)
  from run new c len all show ?thesis
    by blast
qed


theorem select_spec_witness:
  "constructed readme_store (SelectQuery 0) \<and>
   (\<exists>q' h'. select readme_store (SelectQuery 0) [''name''] = Inr (q', h') \<and>
      length (elements h' q') = 4 \<and>
      (\<exists>r. elements h' q' ! 1 = Obj r \<and> fst ` set r = {''name''} \<and>
         map_of r ''name'' = Some (JStr ''Bob'')))"
proof -
  have l: "length (elements readme_store (SelectQuery 0)) = 4"
    by (simp add: elements_def get_def readme_store_def)
  obtain q' h' where run: "select readme_store (SelectQuery 0) [''name''] = Inr (q', h')"
    and len: "length (elements h' q') = length (elements readme_store (SelectQuery 0))"
    and each: "\<forall>i<length (elements readme_store (SelectQuery 0)).
       \<exists>r. elements h' q' ! i = Obj r \<and> distinct (map fst r) \<and> fst ` set r = set [''name''] \<and>
         (\<forall>k\<in>set [''name''].
            map_of r k = Some (field_value (elements readme_store (SelectQuery 0) ! i) k) \<and>
            (\<not> has_field (elements readme_store (SelectQuery 0) ! i) k \<longrightarrow>
               map_of r k = Some JUndefined))"
    using select_spec [OF constructed_readme, of "[''name'']"] by blast
  have one: "1 < length (elements readme_store (SelectQuery 0))"
    by (simp add: l)
  obtain r where r1: "elements h' q' ! 1 = Obj r" and r2: "fst ` set r = set [''name'']"
    and r3: "\<forall>k\<in>set [''name''].
            map_of r k = Some (field_value (elements readme_store (SelectQuery 0) ! 1) k) \<and>
            (\<not> has_field (elements readme_store (SelectQuery 0) ! 1) k \<longrightarrow>
               map_of r k = Some JUndefined)"
    using each [THEN spec, of 1, THEN mp, OF one] by blast
  have fv: "field_value (elements readme_store (SelectQuery 0) ! 1) ''name'' = JStr ''Bob''"
    by (simp add: elements_def get_def readme_store_def bob_def field_value_def)
  have "map_of r ''name'' = Some (field_value (elements readme_store (SelectQuery 0) ! 1) ''name'')"
    using r3 by simp
  then have r4: "map_of r ''name'' = Some (JStr ''Bob'')"
    by (simp only: fv)
  have r5: "fst ` set r = {''name''}"
    using r2 by simp
  have len4: "length (elements h' q') = 4"
    using len l by simp
  from r1 r5 r4 have "\<exists>r. elements h' q' ! 1 = Obj r \<and> fst ` set r = {''name''} \<and>
      map_of r ''name'' = Some (JStr ''Bob'')"
    by (intro exI [of _ r] conjI)
  with run len4 have "\<exists>q' h'. select readme_store (SelectQuery 0) [''name''] = Inr (q', h') \<and>
      length (elements h' q') = 4 \<and>
      (\<exists>r. elements h' q' ! 1 = Obj r \<and> fst ` set r = {''name''} \<and>
         map_of r ''name'' = Some (JStr ''Bob''))"
    by (intro exI [of _ q'] exI [of _ h'] conjI)
  with constructed_readme show ?thesis
    by (rule conjI)
qed

text \<open>The claim as the spec states it fails where a named key is absent from the source
  element: the projected element has the key.\<close>

theorem select_absent_key_present:
  "constructed [[Obj [(''id'', JNum (Num 1)), (''name'', JStr ''Jak'')]]] (SelectQuery 0) \<and>
   \<not> has_field (Obj [(''id'', JNum (Num 1)), (''name'', JStr ''Jak'')]) ''age'' \<and>
   select [[Obj [(''id'', JNum (Num 1)), (''name'', JStr ''Jak'')]]] (SelectQuery 0) [''name'', ''age''] =
     Inr (SelectQuery 1,
          [[Obj [(''id'', JNum (Num 1)), (''name'', JStr ''Jak'')]],
           [Obj [(''name'', JStr ''Jak''), (''age'', JUndefined)]]]) \<and>
   has_field (Obj [(''name'', JStr ''Jak''), (''age'', JUndefined)]) ''age''"
  by (simp add: constructed_iff not_an_object_iff has_field_def select_def select_item_def
      new_from_fresh_objects list_ex_iff)

section \<open>Derived Queries\<close>

lemma keeps_objects_fresh:
  "\<not> list_ex not_an_object xs \<Longrightarrow> keeps_objects (Inr (SelectQuery (length h), h @ [xs]))"
  by (simp add: keeps_objects_def constructed_fresh elements_fresh)

lemma keeps_objects_limit:
  assumes "constructed h q"
  shows "keeps_objects (limit h q n)"
proof (cases "n \<le> 0")
  case True
  then show ?thesis
    by (simp add: limit_closed [OF assms] keeps_objects_def validation_error_def)
next
  case False
  have "\<not> list_ex not_an_object (take (nat n) (elements h q))"
    using constructed_elements [OF assms] by (rule list_ex_subset [OF set_take_subset])
  then show ?thesis
    using False by (simp add: limit_closed [OF assms] keeps_objects_fresh)
qed

lemma keeps_objects_offset:
  assumes "constructed h q"
  shows "keeps_objects (offset h q n)"
proof (cases "n < 0 \<or> int (count h q) \<le> n")
  case True
  then show ?thesis
    by (simp add: offset_closed [OF assms] keeps_objects_def validation_error_def)
next
  case False
  have "\<not> list_ex not_an_object (drop (nat n) (elements h q))"
    using constructed_elements [OF assms] by (rule list_ex_subset [OF set_drop_subset])
  then show ?thesis
    using False by (simp add: offset_closed [OF assms] keeps_objects_fresh)
qed

lemma keeps_objects_paginate:
  assumes "constructed h q"
  shows "keeps_objects (paginate h q p s)"
proof (cases "offset h q ((max p 1 - 1) * s)")
  case (Inl e)
  then show ?thesis
    using keeps_objects_offset [OF assms, of "(max p 1 - 1) * s"]
    by (simp add: paginate_def keeps_objects_def)
next
  case (Inr r)
  obtain q1 h1 where r: "r = (q1, h1)"
    by (cases r)
  have "constructed h1 q1"
    using keeps_objects_offset [OF assms, of "(max p 1 - 1) * s"] Inr r
    by (simp add: keeps_objects_def)
  then have "keeps_objects (limit h1 q1 s)"
    by (rule keeps_objects_limit)
  then show ?thesis
    using Inr r by (simp add: paginate_def)
qed

lemma keeps_objects_where:
  assumes "constructed h q"
  shows "keeps_objects (where' N h q key operator v)"
proof (cases "where' N h q key operator v")
  case (Inl e)
  then show ?thesis
    using where_Inl [OF assms Inl] by (simp add: keeps_objects_def)
next
  case (Inr r)
  obtain q' h' where r: "r = (q', h')"
    by (cases r)
  then obtain ys where "q' = SelectQuery (length h)" "h' = h @ [ys]" "\<not> list_ex not_an_object ys"
    using where_Inr Inr by blast
  then show ?thesis
    using Inr r by (simp add: keeps_objects_fresh)
qed

lemma keeps_objects_select:
  assumes "constructed h q"
  shows "keeps_objects (select h q keys)"
  unfolding select_closed [OF assms]
  by (rule keeps_objects_fresh) (simp add: list_ex_iff not_an_object_iff)

text \<open>
  C10. On a Query the constructor accepts, none of \<open>limit\<close>, \<open>offset\<close>, \<open>paginate\<close>,
  \<open>where\<close> and \<open>select\<close> ends in the constructor's error, and every Query one of them
  returns is again accepted by the constructor: all the elements of its sequence are
  objects, none is \<^verbatim>\<open>null\<close>. The constructor's check, run again on the array a transform
  has built, never throws.
\<close>

theorem transforms_keep_objects:
  assumes "constructed h q"
  shows "keeps_objects (limit h q n) \<and> keeps_objects (offset h q m) \<and>
         keeps_objects (paginate h q p s) \<and> keeps_objects (where' N h q key operator v) \<and>
         keeps_objects (select h q keys)"
  using assms
  by (simp add: keeps_objects_limit keeps_objects_offset keeps_objects_paginate
      keeps_objects_where keeps_objects_select)

theorem transforms_keep_objects_witness:
  "constructed readme_store (SelectQuery 0) \<and>
   where' integers readme_store (SelectQuery 0) ''age'' ''==='' (JNum (Num 20)) =
     Inr (SelectQuery 1, [[jak, bob, tom, sam], [tom, sam]]) \<and>
   keeps_objects (where' integers readme_store (SelectQuery 0) ''age'' ''==='' (JNum (Num 20))) \<and>
   keeps_objects (limit readme_store (SelectQuery 0) 0) \<and>
   keeps_objects (offset readme_store (SelectQuery 0) 1) \<and>
   keeps_objects (paginate readme_store (SelectQuery 0) 2 2) \<and>
   keeps_objects (select readme_store (SelectQuery 0) [''id''])"
proof -
  have "where' integers readme_store (SelectQuery 0) ''age'' ''==='' (JNum (Num 20)) =
      Inr (SelectQuery 1, [[jak, bob, tom, sam], [tom, sam]])"
    by (simp add: where'_def where_item_def equal'_def integers_def readme_store_def jak_def
        bob_def tom_def sam_def new_from_fresh_objects list_ex_iff not_an_object_iff)
  then show ?thesis
    using constructed_readme
      transforms_keep_objects [OF constructed_readme, of 0 1 2 2 integers "''age''" "''===''"
        "JNum (Num 20)"
        "[''id'']"]
    by (simp add: limit_closed offset_closed)
qed

section \<open>Transforms and the store\<close>









section \<open>sum\<close>

lemma sum_item_Obj:
  "sum_item N key acc (Obj r) =
     (if field_value (Obj r) key \<noteq> JUndefined \<and> field_value (Obj r) key \<noteq> JNull \<and>
         \<not> is_number (field_value (Obj r) key)
      then Inl (Error (sum_message key))
      else Inr (add_value N acc (field_value (Obj r) key)))"
  by (cases "field_value (Obj r) key") (simp_all add: sum_item_def field_value_def)

lemma array_reduce_sum_item:
  assumes "\<not> list_ex not_an_object xs"
  shows "array_reduce (sum_item N key) xs acc =
     (if \<exists>item\<in>set xs. field_value item key \<noteq> JUndefined \<and> field_value item key \<noteq> JNull \<and>
           \<not> is_number (field_value item key)
      then Inl (Error (sum_message key))
      else Inr (foldl (\<lambda>acc item. add_value N acc (field_value item key)) acc xs))"
  using assms
proof (induction xs arbitrary: acc)
  case Nil
  then show ?case by simp
next
  case (Cons x xs)
  then obtain r where x: "x = Obj r"
    by (auto simp: not_an_object_iff)
  have "\<not> list_ex not_an_object xs"
    using Cons.prems by simp
  then show ?case
    using Cons.IH by (simp add: x sum_item_Obj)
qed

lemma foldl_unchanged: "\<forall>x\<in>set xs. f acc x = acc \<Longrightarrow> foldl f acc xs = acc"
  by (induction xs) simp_all

text \<open>
  C6. On a Query the constructor accepts, \<open>sum key\<close> starts from the number 0 and goes
  through the elements from the first to the last: a number found in the field \<open>key\<close>
  is added to the total with the addition of the host (that of doubles in JavaScript,
  which rounds, so the order of the additions is part of the result); a field that is
  absent, \<^verbatim>\<open>undefined\<close> or \<^verbatim>\<open>null\<close> is skipped and is no error. When one element holds
  anything else than a number there, \<open>sum\<close> throws the error whose message quotes the
  name of the field (the spec's aggregation TypeError). The result is 0 for the empty
  collection and when no element has the field.
\<close>

theorem sum_spec:
  assumes "constructed h q"
  shows "sum' N h q key =
           (if \<exists>item\<in>set (elements h q).
                 field_value item key \<noteq> JUndefined \<and> field_value item key \<noteq> JNull \<and>
                 \<not> is_number (field_value item key)
            then Inl (Error (sum_message key))
            else Inr (foldl (\<lambda>acc item. add_value N acc (field_value item key))
                        (num_zero N) (elements h q))) \<and>
         (\<exists>before after. sum_message key = before @ key @ after) \<and>
         (elements h q = [] \<longrightarrow> sum' N h q key = Inr (num_zero N)) \<and>
         ((\<forall>item\<in>set (elements h q). \<not> has_field item key) \<longrightarrow>
            sum' N h q key = Inr (num_zero N))"
proof -
  have closed: "sum' N h q key =
      (if \<exists>item\<in>set (elements h q).
            field_value item key \<noteq> JUndefined \<and> field_value item key \<noteq> JNull \<and>
            \<not> is_number (field_value item key)
       then Inl (Error (sum_message key))
       else Inr (foldl (\<lambda>acc item. add_value N acc (field_value item key))
                   (num_zero N) (elements h q)))"
    using array_reduce_sum_item [OF constructed_elements [OF assms], where key = key
        and acc = "num_zero N" and N = N]
    by (simp add: sum'_def elements_def get_def)
  have message: "\<exists>before after. sum_message key = before @ key @ after"
    unfolding sum_message_def by (metis append.assoc)
  have empty: "sum' N h q key = Inr (num_zero N)" if "elements h q = []"
    using that by (simp add: closed)
  have absent: "sum' N h q key = Inr (num_zero N)"
    if "\<forall>item\<in>set (elements h q). \<not> has_field item key"
  proof -
    have u: "\<forall>item\<in>set (elements h q). field_value item key = JUndefined"
      using that by (simp add: has_field_def field_value_def)
    then have "foldl (\<lambda>acc item. add_value N acc (field_value item key))
        (num_zero N) (elements h q) = num_zero N"
      by (intro foldl_unchanged) simp
    moreover have "\<not> (\<exists>item\<in>set (elements h q).
            field_value item key \<noteq> JUndefined \<and> field_value item key \<noteq> JNull \<and>
            \<not> is_number (field_value item key))"
      using u by simp
    ultimately show ?thesis
      by (simp add: closed)
  qed
  show ?thesis
    using closed message empty absent by blast
qed

theorem sum_spec_witness:
  "constructed [[Obj [(''k'', JNum (Num 10))], Obj [(''k'', JNum (Num 20))], Obj []]]
     (SelectQuery 0) \<and>
   sum' integers [[Obj [(''k'', JNum (Num 10))], Obj [(''k'', JNum (Num 20))], Obj []]]
     (SelectQuery 0) ''k'' = Inr (Num 30) \<and>
   constructed [[Obj [(''k'', JStr ''x'') :: string \<times> number jsval]]] (SelectQuery 0) \<and>
   sum' integers [[Obj [(''k'', JStr ''x'')]]] (SelectQuery 0) ''k'' =
     Inl (Error (sum_message ''k'')) \<and>
   sum' integers [[Obj [(''k'', JStr ''x'')]]] (SelectQuery 0) ''j'' = Inr (Num 0)"
proof -
  have a: "constructed [[Obj [(''k'', JNum (Num 10))], Obj [(''k'', JNum (Num 20))], Obj []]]
      (SelectQuery 0)"
    and b: "constructed [[Obj [(''k'', JStr ''x'') :: string \<times> number jsval]]] (SelectQuery 0)"
    by (simp_all add: constructed_iff not_an_object_iff)
  show ?thesis
    using a b
      sum_spec [OF a, where key = "''k''" and N = integers, THEN conjunct1]
      sum_spec [OF b, where key = "''k''" and N = integers, THEN conjunct1]
      sum_spec [OF b, where key = "''j''" and N = integers, THEN conjunct1]
    by (simp add: elements_def get_def field_value_def integers_def)
qed

section \<open>keyBy\<close>








end
